theory Spec2Isabelle
  imports Complex_Main
begin

section \<open>Values of a numeric column\<close>

text \<open>
  The script \<^verbatim>\<open>mytrader.py\<close> computes on pandas columns of floating-point numbers.
  A cell is modelled as a finite number, one of the two infinities, or the
  not-a-number marker that pandas uses for "undefined". Finite cells carry exact real
  numbers: rounding is not modelled, the special values and their arithmetic are.
  Signed zeros are not distinguished (a zero divisor counts as positive zero).
\<close>

datatype fval = NaN | NInf | PInf | Fin real

fun notna :: "fval \<Rightarrow> bool" where
  "notna NaN = False"
| "notna _ = True"

fun fneg :: "fval \<Rightarrow> fval" where
  "fneg NaN = NaN"
| "fneg NInf = PInf"
| "fneg PInf = NInf"
| "fneg (Fin a) = Fin (- a)"

fun fabs :: "fval \<Rightarrow> fval" where
  "fabs NaN = NaN"
| "fabs NInf = PInf"
| "fabs PInf = PInf"
| "fabs (Fin a) = Fin \<bar>a\<bar>"

fun fadd :: "fval \<Rightarrow> fval \<Rightarrow> fval" where
  "fadd NaN _ = NaN"
| "fadd _ NaN = NaN"
| "fadd PInf NInf = NaN"
| "fadd NInf PInf = NaN"
| "fadd PInf _ = PInf"
| "fadd _ PInf = PInf"
| "fadd NInf _ = NInf"
| "fadd _ NInf = NInf"
| "fadd (Fin a) (Fin b) = Fin (a + b)"

definition fsub :: "fval \<Rightarrow> fval \<Rightarrow> fval" where
  "fsub a b = fadd a (fneg b)"

fun fmul :: "fval \<Rightarrow> fval \<Rightarrow> fval" where
  "fmul NaN _ = NaN"
| "fmul _ NaN = NaN"
| "fmul (Fin a) (Fin b) = Fin (a * b)"
| "fmul (Fin a) y = (if a = 0 then NaN else if 0 < a then y else fneg y)"
| "fmul x (Fin b) = (if b = 0 then NaN else if 0 < b then x else fneg x)"
| "fmul PInf y = y"
| "fmul NInf y = fneg y"

fun fdiv :: "fval \<Rightarrow> fval \<Rightarrow> fval" where
  "fdiv NaN _ = NaN"
| "fdiv _ NaN = NaN"
| "fdiv (Fin a) (Fin b) =
     (if b = 0 then (if a = 0 then NaN else if 0 < a then PInf else NInf)
      else Fin (a / b))"
| "fdiv (Fin a) _ = Fin 0"
| "fdiv x (Fin b) = (if 0 \<le> b then x else fneg x)"
| "fdiv _ _ = NaN"

text \<open>Comparisons: every comparison with not-a-number is false.\<close>

fun flt :: "fval \<Rightarrow> fval \<Rightarrow> bool" where
  "flt (Fin a) (Fin b) = (a < b)"
| "flt NInf (Fin _) = True"
| "flt NInf PInf = True"
| "flt (Fin _) PInf = True"
| "flt _ _ = False"

fun fle :: "fval \<Rightarrow> fval \<Rightarrow> bool" where
  "fle NaN _ = False"
| "fle _ NaN = False"
| "fle a b = (a = b \<or> flt a b)"

definition fgt :: "fval \<Rightarrow> fval \<Rightarrow> bool" where
  "fgt a b = flt b a"

definition fge :: "fval \<Rightarrow> fval \<Rightarrow> bool" where
  "fge a b = fle b a"

section \<open>Column operations of pandas\<close>

text \<open>\<^verbatim>\<open>s.shift(1)\<close>: every value moves one row down, the first row is undefined.\<close>

definition shift1 :: "fval list \<Rightarrow> fval list" where
  "shift1 xs = take (length xs) (NaN # xs)"

text \<open>\<^verbatim>\<open>s.diff()\<close> is \<^verbatim>\<open>s - s.shift(1)\<close>.\<close>

definition diff :: "fval list \<Rightarrow> fval list" where
  "diff xs = map2 fsub xs (shift1 xs)"

text \<open>
  \<^verbatim>\<open>s.rolling(window=w, min_periods=m)\<close>: the window of row \<open>i\<close> holds the rows
  \<open>i - w + 1 .. i\<close> that exist. Its observations are the finite cells (pandas
  replaces infinities by not-a-number before a rolling aggregation); the result is
  the aggregate of the observations when there are at least \<open>m\<close> of them, and at
  least one, and is undefined otherwise.
\<close>

definition window :: "nat \<Rightarrow> 'a list \<Rightarrow> nat \<Rightarrow> 'a list" where
  "window w xs i = drop (Suc i - w) (take (Suc i) xs)"

fun observations :: "fval list \<Rightarrow> real list" where
  "observations [] = []"
| "observations (Fin x # xs) = x # observations xs"
| "observations (_ # xs) = observations xs"

definition rolling :: "(real list \<Rightarrow> real) \<Rightarrow> nat \<Rightarrow> nat \<Rightarrow> fval list \<Rightarrow> fval list" where
  "rolling agg w m xs =
     map (\<lambda>i. let obs = observations (window w xs i)
              in if m \<le> length obs \<and> obs \<noteq> [] then Fin (agg obs) else NaN)
         [0..<length xs]"

definition mean :: "real list \<Rightarrow> real" where
  "mean obs = sum_list obs / real (length obs)"

fun minimum :: "real list \<Rightarrow> real" where
  "minimum [] = 0"
| "minimum [x] = x"
| "minimum (x # xs) = min x (minimum xs)"

fun maximum :: "real list \<Rightarrow> real" where
  "maximum [] = 0"
| "maximum [x] = x"
| "maximum (x # xs) = max x (maximum xs)"

section \<open>The oscillator: \<^verbatim>\<open>rsi_series\<close>\<close>

text \<open>
  Failures of the script: the two \<^verbatim>\<open>st.stop()\<close> exits (no rows fetched; no row
  left after \<^verbatim>\<open>dropna\<close>) and the \<^verbatim>\<open>ValueError\<close> that pandas raises for a
  rolling window smaller than its \<^verbatim>\<open>min_periods\<close>.
\<close>

datatype error = NoData | ValueError | NotEnoughBars

text \<open>
  The close prices are the finite numbers of the fetched table, so the input is a list
  of reals. The three parameters come from \<^verbatim>\<open>st.number_input\<close> widgets with integer
  minimum values (2 for the oscillator period, 5 for the lookback, 1 for the smoothing
  length); they are natural numbers here, and the functions below are defined for every
  natural number, as the Python is.

  \<^verbatim>\<open>rsi_series\<close>: the first difference is undefined, and \<^verbatim>\<open>np.where\<close> takes its
  second branch where the comparison is false, which it is for an undefined cell. The
  two averages use \<^verbatim>\<open>rolling(window=period, min_periods=1)\<close>, which pandas rejects
  with a \<^verbatim>\<open>ValueError\<close> when the window is 0. The division and the final formula are
  plain column arithmetic: nothing guards a zero divisor.
\<close>

definition delta :: "real list \<Rightarrow> fval list" where
  "delta closes = diff (map Fin closes)"

definition gain :: "real list \<Rightarrow> fval list" where
  "gain closes = map (\<lambda>d. if fgt d (Fin 0) then d else Fin 0) (delta closes)"

definition loss :: "real list \<Rightarrow> fval list" where
  "loss closes = map (\<lambda>d. if flt d (Fin 0) then fneg d else Fin 0) (delta closes)"

definition avg_gain :: "real list \<Rightarrow> nat \<Rightarrow> fval list" where
  "avg_gain closes period = rolling mean period 1 (gain closes)"

definition avg_loss :: "real list \<Rightarrow> nat \<Rightarrow> fval list" where
  "avg_loss closes period = rolling mean period 1 (loss closes)"

definition rs :: "real list \<Rightarrow> nat \<Rightarrow> fval list" where
  "rs closes period = map2 fdiv (avg_gain closes period) (avg_loss closes period)"

definition rsi_series :: "real list \<Rightarrow> nat \<Rightarrow> error + fval list" where
  "rsi_series closes period =
     (if period < 1 then Inl ValueError
      else Inr (map (\<lambda>r. fsub (Fin 100) (fdiv (Fin 100) (fadd (Fin 1) r))) (rs closes period)))"

section \<open>The channel columns\<close>

text \<open>
  The columns that the script adds to \<^verbatim>\<open>prices\<close>, in its order. The base columns use
  a strict window (\<^verbatim>\<open>min_periods\<close> equal to the window), and so do the three
  smoothed columns.
\<close>

definition RSI_diff :: "fval list \<Rightarrow> fval list" where
  "RSI_diff rsi = map (\<lambda>r. fdiv (fabs (fsub r (Fin 50))) (Fin 50)) rsi"

definition Base_Support :: "real list \<Rightarrow> nat \<Rightarrow> fval list" where
  "Base_Support closes lookback = rolling minimum lookback lookback (map Fin closes)"

definition Base_Resistance :: "real list \<Rightarrow> nat \<Rightarrow> fval list" where
  "Base_Resistance closes lookback = rolling maximum lookback lookback (map Fin closes)"

definition Range :: "real list \<Rightarrow> nat \<Rightarrow> fval list" where
  "Range closes lookback = map2 fsub (Base_Resistance closes lookback) (Base_Support closes lookback)"

definition Adj_Support :: "real list \<Rightarrow> fval list \<Rightarrow> nat \<Rightarrow> fval list" where
  "Adj_Support closes rsi lookback =
     map2 fsub (Base_Support closes lookback) (map2 fmul (RSI_diff rsi) (Range closes lookback))"

definition Adj_Resistance :: "real list \<Rightarrow> fval list \<Rightarrow> nat \<Rightarrow> fval list" where
  "Adj_Resistance closes rsi lookback =
     map2 fadd (Base_Resistance closes lookback) (map2 fmul (RSI_diff rsi) (Range closes lookback))"

definition Midline :: "real list \<Rightarrow> fval list \<Rightarrow> nat \<Rightarrow> fval list" where
  "Midline closes rsi lookback =
     map (\<lambda>s. fdiv s (Fin 2))
       (map2 fadd (Adj_Support closes rsi lookback) (Adj_Resistance closes rsi lookback))"

definition Smooth_Support :: "real list \<Rightarrow> fval list \<Rightarrow> nat \<Rightarrow> nat \<Rightarrow> fval list" where
  "Smooth_Support closes rsi lookback smoothLength =
     rolling mean smoothLength smoothLength (Adj_Support closes rsi lookback)"

definition Smooth_Resistance :: "real list \<Rightarrow> fval list \<Rightarrow> nat \<Rightarrow> nat \<Rightarrow> fval list" where
  "Smooth_Resistance closes rsi lookback smoothLength =
     rolling mean smoothLength smoothLength (Adj_Resistance closes rsi lookback)"

definition Smooth_Midline :: "real list \<Rightarrow> fval list \<Rightarrow> nat \<Rightarrow> nat \<Rightarrow> fval list" where
  "Smooth_Midline closes rsi lookback smoothLength =
     rolling mean smoothLength smoothLength (Midline closes rsi lookback)"

section \<open>The valid rows and the signals\<close>

text \<open>
  \<^verbatim>\<open>prices.dropna(subset=[...])\<close> keeps the rows whose four named cells are all
  defined. The kept rows are given by their positions in the input, in order.
\<close>

definition valid_index :: "real list \<Rightarrow> fval list \<Rightarrow> nat \<Rightarrow> nat \<Rightarrow> nat list" where
  "valid_index closes rsi lookback smoothLength =
     filter (\<lambda>i. notna (Smooth_Support closes rsi lookback smoothLength ! i) \<and>
                 notna (Smooth_Resistance closes rsi lookback smoothLength ! i) \<and>
                 notna (Smooth_Midline closes rsi lookback smoothLength ! i) \<and>
                 notna (rsi ! i))
       [0..<length closes]"

definition rows :: "nat list \<Rightarrow> 'a list \<Rightarrow> 'a list" where
  "rows idx col = map (\<lambda>i. col ! i) idx"

definition Buy_Signal :: "fval list \<Rightarrow> fval list \<Rightarrow> fval list \<Rightarrow> bool list" where
  "Buy_Signal vclose vsupport vrsi =
     map2 (\<and>)
       (map2 (\<and>) (map2 fgt vclose vsupport) (map2 fle (shift1 vclose) (shift1 vsupport)))
       (map2 fgt vrsi (shift1 vrsi))"

definition Sell_Signal :: "fval list \<Rightarrow> fval list \<Rightarrow> fval list \<Rightarrow> bool list" where
  "Sell_Signal vclose vresistance vrsi =
     map2 (\<and>)
       (map2 (\<and>) (map2 flt vclose vresistance) (map2 fge (shift1 vclose) (shift1 vresistance)))
       (map2 flt vrsi (shift1 vrsi))"

text \<open>
  The result of a run: the kept positions, the columns of \<^verbatim>\<open>valid\<close> that the script
  displays, the two signal columns, and the recommendation for the latest row (buy
  first, then sell, else wait). The script stops early, with nothing of this produced,
  when no rows were fetched or when \<^verbatim>\<open>valid\<close> is empty.
\<close>

datatype action = BUY | SELL | WAIT

record report =
  index :: "nat list"
  close_col :: "fval list"
  rsi_col :: "fval list"
  support_col :: "fval list"
  resistance_col :: "fval list"
  midline_col :: "fval list"
  buy_col :: "bool list"
  sell_col :: "bool list"
  latest_action :: action

definition pipeline :: "real list \<Rightarrow> nat \<Rightarrow> nat \<Rightarrow> nat \<Rightarrow> error + report" where
  "pipeline closes rsiPeriod lookback smoothLength =
     (if closes = [] then Inl NoData
      else case rsi_series closes rsiPeriod of
        Inl e \<Rightarrow> Inl e
      | Inr rsi \<Rightarrow>
         (let idx = valid_index closes rsi lookback smoothLength in
          if idx = [] then Inl NotEnoughBars
          else
            let vclose = rows idx (map Fin closes);
                vrsi = rows idx rsi;
                vsup = rows idx (Smooth_Support closes rsi lookback smoothLength);
                vres = rows idx (Smooth_Resistance closes rsi lookback smoothLength);
                vmid = rows idx (Smooth_Midline closes rsi lookback smoothLength);
                buy = Buy_Signal vclose vsup vrsi;
                sell = Sell_Signal vclose vres vrsi
            in Inr \<lparr> index = idx, close_col = vclose, rsi_col = vrsi, support_col = vsup,
                     resistance_col = vres, midline_col = vmid, buy_col = buy, sell_col = sell,
                     latest_action = (if last buy then BUY else if last sell then SELL else WAIT) \<rparr>))"

section \<open>Auxiliary functions for the proofs\<close>

text \<open>
  The gains and losses as plain numbers (they are never undefined: the comparison of
  the undefined first difference with zero is false, so \<^verbatim>\<open>np.where\<close> takes 0).
\<close>

definition gains :: "real list \<Rightarrow> real list" where
  "gains closes =
     map (\<lambda>i. if i = 0 then 0 else max 0 (closes ! i - closes ! (i - 1))) [0..<length closes]"

definition losses :: "real list \<Rightarrow> real list" where
  "losses closes =
     map (\<lambda>i. if i = 0 then 0 else max 0 (closes ! (i - 1) - closes ! i)) [0..<length closes]"

fun fin_of :: "fval \<Rightarrow> real" where
  "fin_of (Fin r) = r"
| "fin_of _ = 0"

definition lo :: "real list \<Rightarrow> nat \<Rightarrow> nat \<Rightarrow> real" where
  "lo closes lookback j = minimum (window lookback closes j)"

definition hi :: "real list \<Rightarrow> nat \<Rightarrow> nat \<Rightarrow> real" where
  "hi closes lookback j = maximum (window lookback closes j)"

definition dev :: "fval list \<Rightarrow> nat \<Rightarrow> real" where
  "dev rsi j = \<bar>fin_of (rsi ! j) - 50\<bar> / 50"

definition adj_lo :: "real list \<Rightarrow> fval list \<Rightarrow> nat \<Rightarrow> nat \<Rightarrow> real" where
  "adj_lo closes rsi lookback j =
     lo closes lookback j - dev rsi j * (hi closes lookback j - lo closes lookback j)"

definition adj_hi :: "real list \<Rightarrow> fval list \<Rightarrow> nat \<Rightarrow> nat \<Rightarrow> real" where
  "adj_hi closes rsi lookback j =
     hi closes lookback j + dev rsi j * (hi closes lookback j - lo closes lookback j)"

definition mid :: "real list \<Rightarrow> fval list \<Rightarrow> nat \<Rightarrow> nat \<Rightarrow> real" where
  "mid closes rsi lookback j = (adj_lo closes rsi lookback j + adj_hi closes rsi lookback j) / 2"

definition ok :: "fval list \<Rightarrow> nat \<Rightarrow> nat \<Rightarrow> bool" where
  "ok rsi lookback j \<longleftrightarrow> 1 \<le> lookback \<and> lookback \<le> Suc j \<and> notna (rsi ! j)"

definition smooth_ok :: "fval list \<Rightarrow> nat \<Rightarrow> nat \<Rightarrow> nat \<Rightarrow> bool" where
  "smooth_ok rsi lookback smoothLength i \<longleftrightarrow>
     1 \<le> smoothLength \<and> smoothLength \<le> Suc i \<and>
     (\<forall>j\<in>{Suc i - smoothLength..i}. ok rsi lookback j)"

section \<open>Basic facts about the column operations\<close>

lemma length_shift1 [simp]: "length (shift1 xs) = length xs"
  by (simp add: shift1_def)

lemma shift1_nth: "i < length xs \<Longrightarrow> shift1 xs ! i = (if i = 0 then NaN else xs ! (i - 1))"
  by (cases i) (simp_all add: shift1_def)

lemma length_rolling [simp]: "length (rolling agg w m xs) = length xs"
  by (simp add: rolling_def)

lemma rolling_nth:
  "i < length xs \<Longrightarrow> rolling agg w m xs ! i =
     (if m \<le> length (observations (window w xs i)) \<and> observations (window w xs i) \<noteq> []
      then Fin (agg (observations (window w xs i))) else NaN)"
  by (simp add: rolling_def Let_def)

lemma observations_map_Fin [simp]: "observations (map Fin xs) = xs"
  by (induction xs) simp_all

lemma window_map: "window w (map f xs) i = map f (window w xs i)"
  by (simp add: window_def take_map drop_map)

lemma length_window: "i < length xs \<Longrightarrow> length (window w xs i) = min (Suc i) w"
  by (auto simp add: window_def)

lemma set_window: "set (window w xs i) \<subseteq> set xs"
  unfolding window_def by (meson set_drop_subset set_take_subset subset_trans)

section \<open>Facts about the oscillator\<close>

lemma length_delta [simp]: "length (delta closes) = length closes"
  by (simp add: delta_def diff_def)

lemma delta_nth:
  "i < length closes \<Longrightarrow>
   delta closes ! i = (if i = 0 then NaN else Fin (closes ! i - closes ! (i - 1)))"
  by (simp add: delta_def diff_def shift1_nth fsub_def)

lemma gain_eq: "gain closes = map Fin (gains closes)"
  by (rule nth_equalityI) (auto simp add: gain_def gains_def delta_nth fgt_def)

lemma loss_eq: "loss closes = map Fin (losses closes)"
  by (rule nth_equalityI) (auto simp add: loss_def losses_def delta_nth)

lemma gains_nonneg: "x \<in> set (gains closes) \<Longrightarrow> 0 \<le> x"
  by (auto simp add: gains_def)

lemma losses_nonneg: "x \<in> set (losses closes) \<Longrightarrow> 0 \<le> x"
  by (auto simp add: losses_def)

lemma length_gains [simp]: "length (gains closes) = length closes"
  by (simp add: gains_def)

lemma length_losses [simp]: "length (losses closes) = length closes"
  by (simp add: losses_def)

lemma mean_nonneg: "(\<And>x. x \<in> set xs \<Longrightarrow> 0 \<le> x) \<Longrightarrow> 0 \<le> mean xs"
  by (simp add: mean_def sum_list_nonneg)

lemma avg_gain_nth:
  "i < length closes \<Longrightarrow> 1 \<le> period \<Longrightarrow>
   avg_gain closes period ! i = Fin (mean (window period (gains closes) i))"
  by (simp add: avg_gain_def gain_eq rolling_nth window_map length_window
      flip: length_0_conv [of "window _ _ _"] del: length_0_conv)

lemma avg_loss_nth:
  "i < length closes \<Longrightarrow> 1 \<le> period \<Longrightarrow>
   avg_loss closes period ! i = Fin (mean (window period (losses closes) i))"
  by (simp add: avg_loss_def loss_eq rolling_nth window_map length_window
      flip: length_0_conv [of "window _ _ _"] del: length_0_conv)

lemma length_avg_gain [simp]: "length (avg_gain closes period) = length closes"
  by (simp add: avg_gain_def gain_eq)

lemma length_avg_loss [simp]: "length (avg_loss closes period) = length closes"
  by (simp add: avg_loss_def loss_eq)

lemma length_rs [simp]: "length (rs closes period) = length closes"
  by (simp add: rs_def)

lemma rsi_series_Inr:
  "rsi_series closes period = Inr rsi \<longleftrightarrow>
   1 \<le> period \<and>
   rsi = map (\<lambda>r. fsub (Fin 100) (fdiv (Fin 100) (fadd (Fin 1) r))) (rs closes period)"
  by (auto simp add: rsi_series_def)

lemma rsi_series_length: "rsi_series closes period = Inr rsi \<Longrightarrow> length rsi = length closes"
  by (simp add: rsi_series_Inr)

lemma rsi_cell:
  "0 \<le> g \<Longrightarrow> 0 \<le> l \<Longrightarrow>
   fsub (Fin 100) (fdiv (Fin 100) (fadd (Fin 1) (fdiv (Fin g) (Fin l)))) =
     (if l = 0 then (if g = 0 then NaN else Fin 100) else Fin (100 - 100 / (1 + g / l)))"
  by (auto simp add: fsub_def add_nonneg_eq_0_iff)

lemma avg_gain_nonneg: "0 \<le> mean (window period (gains closes) i)"
  using set_window [of period "gains closes" i] by (intro mean_nonneg gains_nonneg) auto

lemma avg_loss_nonneg: "0 \<le> mean (window period (losses closes) i)"
  using set_window [of period "losses closes" i] by (intro mean_nonneg losses_nonneg) auto

text \<open>The oscillator cell by cell, in terms of the two trailing averages.\<close>

lemma rsi_nth:
  assumes "rsi_series closes period = Inr rsi" and "i < length closes"
  shows "rsi ! i =
     (let g = mean (window period (gains closes) i);
          l = mean (window period (losses closes) i)
      in if l = 0 then (if g = 0 then NaN else Fin 100) else Fin (100 - 100 / (1 + g / l)))"
proof -
  have p: "1 \<le> period" using assms(1) by (simp add: rsi_series_Inr)
  have "rsi ! i = fsub (Fin 100) (fdiv (Fin 100) (fadd (Fin 1)
      (fdiv (Fin (mean (window period (gains closes) i)))
            (Fin (mean (window period (losses closes) i))))))"
    using assms p
    by (simp add: rsi_series_Inr rs_def avg_gain_nth avg_loss_nth del: fdiv.simps fadd.simps)
  then show ?thesis
    unfolding rsi_cell [OF avg_gain_nonneg avg_loss_nonneg] Let_def .
qed

lemma rsi_range:
  assumes "rsi_series closes period = Inr rsi" and "i < length closes"
  shows "rsi ! i = NaN \<or> (\<exists>r. rsi ! i = Fin r \<and> 0 \<le> r \<and> r \<le> 100)"
proof -
  let ?g = "mean (window period (gains closes) i)"
  let ?l = "mean (window period (losses closes) i)"
  have "0 \<le> 100 - 100 / (1 + ?g / ?l) \<and> 100 - 100 / (1 + ?g / ?l) \<le> 100" if "?l \<noteq> 0"
  proof -
    have "1 \<le> 1 + ?g / ?l"
      using avg_gain_nonneg [of period closes i] avg_loss_nonneg [of period closes i] by simp
    then have "100 / (1 + ?g / ?l) \<le> 100" "0 \<le> 100 / (1 + ?g / ?l)"
      by (simp_all add: divide_le_eq)
    then show ?thesis by simp
  qed
  then show ?thesis
    unfolding rsi_nth [OF assms] Let_def by auto
qed

section \<open>The oscillator stays between 0 and 100\<close>

text \<open>
  C3: for every close-price series and every period of at least 2, \<^verbatim>\<open>rsi_series\<close>
  returns a series as long as the input, and each of its defined values is a finite
  number between 0 and 100 inclusive.
\<close>

theorem rsi_series_range:
  assumes "2 \<le> period"
  shows "\<exists>rsi. rsi_series closes period = Inr rsi \<and> length rsi = length closes \<and>
           (\<forall>i<length closes.
              notna (rsi ! i) \<longrightarrow> (\<exists>r. rsi ! i = Fin r \<and> 0 \<le> r \<and> r \<le> 100))"
proof -
  obtain rsi where r: "rsi_series closes period = Inr rsi"
    using assms by (auto simp add: rsi_series_def)
  have "notna (rsi ! i) \<longrightarrow> (\<exists>r. rsi ! i = Fin r \<and> 0 \<le> r \<and> r \<le> 100)"
    if "i < length closes" for i
    using rsi_range [OF r that] by auto
  then show ?thesis
    using r rsi_series_length [OF r] by blast
qed

theorem rsi_series_range_witness:
  "(2::nat) \<le> 3 \<and>
   rsi_series [3, 1, 2, 5] 3 = Inr [NaN, Fin 0, Fin (100 / 3), Fin (200 / 3)] \<and>
   (\<exists>r. [NaN, Fin 0, Fin (100 / 3), Fin (200 / 3)] ! 2 = Fin r \<and> 0 \<le> r \<and> r \<le> 100)"
proof -
  have v: "rsi_series [3, 1, 2, 5] 3 = Inr [NaN, Fin 0, Fin (100 / 3), Fin (200 / 3)]"
    by code_simp
  from rsi_series_range [of 3 "[3, 1, 2, 5]"]
  have "\<forall>i<4. notna ([NaN, Fin 0, Fin (100 / 3), Fin (200 / 3)] ! i) \<longrightarrow>
      (\<exists>r. [NaN, Fin 0, Fin (100 / 3), Fin (200 / 3)] ! i = Fin r \<and> 0 \<le> r \<and> r \<le> 100)"
    unfolding v by simp
  then have "notna ([NaN, Fin 0, Fin (100 / 3), Fin (200 / 3)] ! 2) \<longrightarrow>
      (\<exists>r. [NaN, Fin 0, Fin (100 / 3), Fin (200 / 3)] ! 2 = Fin r \<and> 0 \<le> r \<and> r \<le> 100)"
    by (rule allE [of _ 2]) simp
  then have "\<exists>r. [NaN, Fin 0, Fin (100 / 3), Fin (200 / 3)] ! 2 = Fin r \<and> 0 \<le> r \<and> r \<le> 100"
    by simp
  with v show ?thesis by simp
qed

section \<open>Facts about the channel columns\<close>

lemma window_nonempty: "i < length xs \<Longrightarrow> window w xs i \<noteq> [] \<longleftrightarrow> 1 \<le> w"
  using length_window [of i xs w] by (auto simp del: length_0_conv simp flip: length_0_conv)

lemma Base_Support_nth:
  "i < length closes \<Longrightarrow>
   Base_Support closes lookback ! i =
     (if 1 \<le> lookback \<and> lookback \<le> Suc i then Fin (lo closes lookback i) else NaN)"
  by (auto simp add: Base_Support_def rolling_nth window_map length_window lo_def window_nonempty)

lemma Base_Resistance_nth:
  "i < length closes \<Longrightarrow>
   Base_Resistance closes lookback ! i =
     (if 1 \<le> lookback \<and> lookback \<le> Suc i then Fin (hi closes lookback i) else NaN)"
  by (auto simp add: Base_Resistance_def rolling_nth window_map length_window hi_def window_nonempty)

lemma minimum_le_maximum: "xs \<noteq> [] \<Longrightarrow> minimum xs \<le> maximum xs"
  by (induction xs rule: minimum.induct) auto

lemma lo_le_hi: "i < length closes \<Longrightarrow> 1 \<le> lookback \<Longrightarrow> lo closes lookback i \<le> hi closes lookback i"
  by (simp add: lo_def hi_def minimum_le_maximum window_nonempty)

lemma length_Base_Support [simp]: "length (Base_Support closes lookback) = length closes"
  by (simp add: Base_Support_def)

lemma length_Base_Resistance [simp]: "length (Base_Resistance closes lookback) = length closes"
  by (simp add: Base_Resistance_def)

lemma length_Range [simp]: "length (Range closes lookback) = length closes"
  by (simp add: Range_def)

lemma length_RSI_diff [simp]: "length (RSI_diff rsi) = length rsi"
  by (simp add: RSI_diff_def)

lemma length_Adj_Support [simp]:
  "length rsi = length closes \<Longrightarrow> length (Adj_Support closes rsi lookback) = length closes"
  by (simp add: Adj_Support_def)

lemma length_Adj_Resistance [simp]:
  "length rsi = length closes \<Longrightarrow> length (Adj_Resistance closes rsi lookback) = length closes"
  by (simp add: Adj_Resistance_def)

lemma length_Midline [simp]:
  "length rsi = length closes \<Longrightarrow> length (Midline closes rsi lookback) = length closes"
  by (simp add: Midline_def)

lemma Range_nth:
  "i < length closes \<Longrightarrow>
   Range closes lookback ! i =
     (if 1 \<le> lookback \<and> lookback \<le> Suc i then Fin (hi closes lookback i - lo closes lookback i) else NaN)"
  by (simp add: Range_def Base_Support_nth Base_Resistance_nth fsub_def)

lemma RSI_diff_nth:
  assumes "rsi_series closes period = Inr rsi" and "i < length closes"
  shows "RSI_diff rsi ! i = (if notna (rsi ! i) then Fin (dev rsi i) else NaN)"
  using rsi_range [OF assms] assms(2) rsi_series_length [OF assms(1)]
  by (auto simp add: RSI_diff_def dev_def fsub_def)

lemma Adj_Support_nth:
  assumes "rsi_series closes period = Inr rsi" and "i < length closes"
  shows "Adj_Support closes rsi lookback ! i =
     (if ok rsi lookback i then Fin (adj_lo closes rsi lookback i) else NaN)"
  using assms(2) rsi_series_length [OF assms(1)]
  by (simp add: Adj_Support_def Base_Support_nth Range_nth RSI_diff_nth [OF assms] ok_def
      adj_lo_def fsub_def)

lemma Adj_Resistance_nth:
  assumes "rsi_series closes period = Inr rsi" and "i < length closes"
  shows "Adj_Resistance closes rsi lookback ! i =
     (if ok rsi lookback i then Fin (adj_hi closes rsi lookback i) else NaN)"
  using assms(2) rsi_series_length [OF assms(1)]
  by (simp add: Adj_Resistance_def Base_Resistance_nth Range_nth RSI_diff_nth [OF assms] ok_def
      adj_hi_def)

lemma Midline_nth:
  assumes "rsi_series closes period = Inr rsi" and "i < length closes"
  shows "Midline closes rsi lookback ! i =
     (if ok rsi lookback i then Fin (mid closes rsi lookback i) else NaN)"
  using assms(2) rsi_series_length [OF assms(1)]
  by (simp add: Midline_def Adj_Support_nth [OF assms] Adj_Resistance_nth [OF assms] mid_def)

section \<open>Facts about the smoothed columns\<close>

lemma observations_map_if:
  "observations (map (\<lambda>j. if p j then Fin (f j) else NaN) js) = map f (filter p js)"
  by (induction js) simp_all

lemma window_upt: "i < n \<Longrightarrow> window w [0..<n] i = [Suc i - w..<Suc i]"
  by (simp add: window_def)

lemma filter_full_length:
  "length xs \<le> length (filter p xs) \<longleftrightarrow> (\<forall>x\<in>set xs. p x)"
proof
  assume "length xs \<le> length (filter p xs)"
  then have "length (filter p xs) = length xs"
    using length_filter_le [of p xs] by simp
  then show "\<forall>x\<in>set xs. p x"
    using length_filter_less [of _ xs p] by fastforce
next
  assume "\<forall>x\<in>set xs. p x"
  then show "length xs \<le> length (filter p xs)" by simp
qed

lemma rolling_mean_map:
  assumes "i < n"
  shows "rolling mean s s (map (\<lambda>j. if p j then Fin (f j) else NaN) [0..<n]) ! i =
     (if 1 \<le> s \<and> s \<le> Suc i \<and> (\<forall>j\<in>{Suc i - s..i}. p j)
      then Fin (mean (map f [Suc i - s..<Suc i])) else NaN)"
proof -
  let ?W = "[Suc i - s..<Suc i]"
  let ?c = "s \<le> length (filter p ?W) \<and> filter p ?W \<noteq> []"
  have obs: "observations (window s (map (\<lambda>j. if p j then Fin (f j) else NaN) [0..<n]) i) =
      map f (filter p ?W)"
    using assms by (simp add: window_map window_upt observations_map_if)
  have r: "rolling mean s s (map (\<lambda>j. if p j then Fin (f j) else NaN) [0..<n]) ! i =
      (if ?c then Fin (mean (map f (filter p ?W))) else NaN)"
    using assms by (simp add: rolling_nth obs del: upt_Suc)
  have set_W: "set ?W = {Suc i - s..i}" by auto
  have len: "length ?W = Suc i - (Suc i - s)" by (simp del: upt_Suc)
  show ?thesis
  proof (cases "1 \<le> s \<and> s \<le> Suc i \<and> (\<forall>j\<in>{Suc i - s..i}. p j)")
    case True
    then have full: "filter p ?W = ?W" using set_W by (simp del: set_upt upt_Suc)
    have "length ?W = s" using True len by arith
    moreover from this have "?W \<noteq> []" using True by (auto simp del: upt_Suc)
    ultimately have ?c by (simp only: full) simp
    then have "rolling mean s s (map (\<lambda>j. if p j then Fin (f j) else NaN) [0..<n]) ! i =
        Fin (mean (map f (filter p ?W)))"
      unfolding r by (rule if_P)
    then show ?thesis by (simp only: full if_P [OF True])
  next
    case False
    have "\<not> ?c"
    proof
      assume a: ?c
      have "length (filter p ?W) \<le> length ?W" by (rule length_filter_le)
      moreover have "0 < length (filter p ?W)" using a by (simp del: upt_Suc)
      ultimately have s1: "1 \<le> s" and s2: "s \<le> Suc i" using a len by arith+
      then have "length ?W = s" using len by arith
      then have "length ?W \<le> length (filter p ?W)" using a by (simp del: upt_Suc)
      then have "\<forall>j\<in>set ?W. p j" by (simp only: filter_full_length)
      then have "\<forall>j\<in>{Suc i - s..i}. p j" by (simp only: set_W)
      with s1 s2 False show False by simp
    qed
    then have "rolling mean s s (map (\<lambda>j. if p j then Fin (f j) else NaN) [0..<n]) ! i = NaN"
      unfolding r by (rule if_not_P)
    then show ?thesis by (simp only: if_not_P [OF False])
  qed
qed

lemma Adj_Support_map:
  assumes "rsi_series closes period = Inr rsi"
  shows "Adj_Support closes rsi lookback =
     map (\<lambda>j. if ok rsi lookback j then Fin (adj_lo closes rsi lookback j) else NaN) [0..<length closes]"
  using rsi_series_length [OF assms]
  by (intro nth_equalityI) (simp_all add: Adj_Support_nth [OF assms])

lemma Adj_Resistance_map:
  assumes "rsi_series closes period = Inr rsi"
  shows "Adj_Resistance closes rsi lookback =
     map (\<lambda>j. if ok rsi lookback j then Fin (adj_hi closes rsi lookback j) else NaN) [0..<length closes]"
  using rsi_series_length [OF assms]
  by (intro nth_equalityI) (simp_all add: Adj_Resistance_nth [OF assms])

lemma Midline_map:
  assumes "rsi_series closes period = Inr rsi"
  shows "Midline closes rsi lookback =
     map (\<lambda>j. if ok rsi lookback j then Fin (mid closes rsi lookback j) else NaN) [0..<length closes]"
  using rsi_series_length [OF assms]
  by (intro nth_equalityI) (simp_all add: Midline_nth [OF assms])

lemma Smooth_Support_nth:
  assumes "rsi_series closes period = Inr rsi" and "i < length closes"
  shows "Smooth_Support closes rsi lookback smoothLength ! i =
     (if smooth_ok rsi lookback smoothLength i
      then Fin (mean (map (adj_lo closes rsi lookback) [Suc i - smoothLength..<Suc i])) else NaN)"
  unfolding Smooth_Support_def Adj_Support_map [OF assms(1)] smooth_ok_def
  by (rule rolling_mean_map [OF assms(2)])

lemma Smooth_Resistance_nth:
  assumes "rsi_series closes period = Inr rsi" and "i < length closes"
  shows "Smooth_Resistance closes rsi lookback smoothLength ! i =
     (if smooth_ok rsi lookback smoothLength i
      then Fin (mean (map (adj_hi closes rsi lookback) [Suc i - smoothLength..<Suc i])) else NaN)"
  unfolding Smooth_Resistance_def Adj_Resistance_map [OF assms(1)] smooth_ok_def
  by (rule rolling_mean_map [OF assms(2)])

lemma Smooth_Midline_nth:
  assumes "rsi_series closes period = Inr rsi" and "i < length closes"
  shows "Smooth_Midline closes rsi lookback smoothLength ! i =
     (if smooth_ok rsi lookback smoothLength i
      then Fin (mean (map (mid closes rsi lookback) [Suc i - smoothLength..<Suc i])) else NaN)"
  unfolding Smooth_Midline_def Midline_map [OF assms(1)] smooth_ok_def
  by (rule rolling_mean_map [OF assms(2)])

lemma mean_map_mono:
  assumes "\<And>x. x \<in> set xs \<Longrightarrow> f x \<le> g x"
  shows "mean (map f xs) \<le> mean (map g xs)"
  unfolding mean_def using sum_list_mono [of xs f g] assms
  by (simp add: divide_right_mono)

lemma dev_nonneg: "0 \<le> dev rsi j"
  by (simp add: dev_def)

lemma adj_order:
  assumes "j < length closes" and "1 \<le> lookback"
  shows "adj_lo closes rsi lookback j \<le> lo closes lookback j"
    and "hi closes lookback j \<le> adj_hi closes rsi lookback j"
    and "adj_lo closes rsi lookback j \<le> mid closes rsi lookback j"
    and "mid closes rsi lookback j \<le> adj_hi closes rsi lookback j"
proof -
  have "0 \<le> dev rsi j * (hi closes lookback j - lo closes lookback j)"
    using dev_nonneg lo_le_hi [OF assms] by simp
  then show "adj_lo closes rsi lookback j \<le> lo closes lookback j"
    and "hi closes lookback j \<le> adj_hi closes rsi lookback j"
    and "adj_lo closes rsi lookback j \<le> mid closes rsi lookback j"
    and "mid closes rsi lookback j \<le> adj_hi closes rsi lookback j"
    using lo_le_hi [OF assms] by (simp_all add: adj_lo_def adj_hi_def mid_def)
qed

section \<open>Ordering of the channels\<close>

lemma smooth_ok_last:
  assumes "smooth_ok rsi lookback smoothLength i"
  shows "ok rsi lookback i"
proof -
  have "i \<in> {Suc i - smoothLength..i}"
    using assms unfolding smooth_ok_def by (simp, arith)
  then show ?thesis
    using assms unfolding smooth_ok_def by blast
qed

text \<open>
  C10: at every position where base support, base resistance and the oscillator
  deviation are all defined, the deviation and the range are not negative and the
  adjusted channel contains the base channel: adjusted support \<open>\<le>\<close> base support
  \<open>\<le>\<close> base resistance \<open>\<le>\<close> adjusted resistance.
\<close>

theorem adjusted_channel_contains_base:
  assumes "rsi_series closes period = Inr rsi" and "i < length closes"
    and "notna (Base_Support closes lookback ! i)"
    and "notna (Base_Resistance closes lookback ! i)"
    and "notna (RSI_diff rsi ! i)"
  shows "\<exists>s a b r d w.
     Adj_Support closes rsi lookback ! i = Fin s \<and> Base_Support closes lookback ! i = Fin a \<and>
     Base_Resistance closes lookback ! i = Fin b \<and> Adj_Resistance closes rsi lookback ! i = Fin r \<and>
     RSI_diff rsi ! i = Fin d \<and> Range closes lookback ! i = Fin w \<and>
     0 \<le> d \<and> 0 \<le> w \<and> s \<le> a \<and> a \<le> b \<and> b \<le> r"
proof -
  have L: "1 \<le> lookback \<and> lookback \<le> Suc i"
    using assms(2,3) by (simp add: Base_Support_nth split: if_splits)
  have R: "notna (rsi ! i)"
    using assms(5) by (simp add: RSI_diff_nth [OF assms(1,2)] split: if_splits)
  have ok: "ok rsi lookback i" using L R by (simp add: ok_def)
  have "1 \<le> lookback" using L by simp
  note ord = adj_order [OF assms(2) this, of rsi] lo_le_hi [OF assms(2) this]
  show ?thesis
    using ord L R ok dev_nonneg [of rsi i] assms(2)
    by (simp add: Adj_Support_nth [OF assms(1,2)] Adj_Resistance_nth [OF assms(1,2)]
        Base_Support_nth Base_Resistance_nth RSI_diff_nth [OF assms(1,2)] Range_nth)
qed

theorem adjusted_channel_contains_base_witness:
  "rsi_series [3, 1, 2, 5, 4, 6, 2] 3 =
     Inr [NaN, Fin 0, Fin (100 / 3), Fin (200 / 3), Fin 80, Fin (250 / 3), Fin (200 / 7)] \<and>
   (5::nat) < length [3, 1, 2, 5, 4, 6, 2 :: real] \<and>
   Base_Support [3, 1, 2, 5, 4, 6, 2] 5 ! 5 = Fin 1 \<and>
   Base_Resistance [3, 1, 2, 5, 4, 6, 2] 5 ! 5 = Fin 6 \<and>
   RSI_diff [NaN, Fin 0, Fin (100 / 3), Fin (200 / 3), Fin 80, Fin (250 / 3), Fin (200 / 7)] ! 5
     = Fin (2 / 3) \<and>
   (\<exists>s r. Adj_Support [3, 1, 2, 5, 4, 6, 2]
            [NaN, Fin 0, Fin (100 / 3), Fin (200 / 3), Fin 80, Fin (250 / 3), Fin (200 / 7)] 5 ! 5 = Fin s \<and>
          Adj_Resistance [3, 1, 2, 5, 4, 6, 2]
            [NaN, Fin 0, Fin (100 / 3), Fin (200 / 3), Fin 80, Fin (250 / 3), Fin (200 / 7)] 5 ! 5 = Fin r \<and>
          s \<le> 1 \<and> 6 \<le> r)"
proof -
  let ?c = "[3, 1, 2, 5, 4, 6, 2] :: real list"
  let ?r = "[NaN, Fin 0, Fin (100 / 3), Fin (200 / 3), Fin 80, Fin (250 / 3), Fin (200 / 7)]"
  have v: "rsi_series ?c 3 = Inr ?r" by code_simp
  have i: "(5::nat) < length ?c" by simp
  have a: "Base_Support ?c 5 ! 5 = Fin 1" by code_simp
  have b: "Base_Resistance ?c 5 ! 5 = Fin 6" by code_simp
  have d: "RSI_diff ?r ! 5 = Fin (2 / 3)" by code_simp
  from adjusted_channel_contains_base [OF v i, of 5] a b d
  have "\<exists>s r. Adj_Support ?c ?r 5 ! 5 = Fin s \<and> Adj_Resistance ?c ?r 5 ! 5 = Fin r \<and> s \<le> 1 \<and> 6 \<le> r"
    by auto
  with v i a b d show ?thesis by blast
qed

text \<open>
  C5: at every position where support, midline and resistance are all defined, support
  \<open>\<le>\<close> midline \<open>\<le>\<close> resistance; this holds for the adjusted channel and for the
  smoothed channel.
\<close>

theorem channel_ordering:
  assumes "rsi_series closes period = Inr rsi" and "i < length closes"
  shows "(notna (Adj_Support closes rsi lookback ! i) \<and> notna (Midline closes rsi lookback ! i) \<and>
          notna (Adj_Resistance closes rsi lookback ! i) \<longrightarrow>
          (\<exists>s m r. Adj_Support closes rsi lookback ! i = Fin s \<and>
                   Midline closes rsi lookback ! i = Fin m \<and>
                   Adj_Resistance closes rsi lookback ! i = Fin r \<and> s \<le> m \<and> m \<le> r)) \<and>
         (notna (Smooth_Support closes rsi lookback smoothLength ! i) \<and>
          notna (Smooth_Midline closes rsi lookback smoothLength ! i) \<and>
          notna (Smooth_Resistance closes rsi lookback smoothLength ! i) \<longrightarrow>
          (\<exists>s m r. Smooth_Support closes rsi lookback smoothLength ! i = Fin s \<and>
                   Smooth_Midline closes rsi lookback smoothLength ! i = Fin m \<and>
                   Smooth_Resistance closes rsi lookback smoothLength ! i = Fin r \<and>
                   s \<le> m \<and> m \<le> r))"
proof (intro conjI impI)
  assume "notna (Adj_Support closes rsi lookback ! i) \<and> notna (Midline closes rsi lookback ! i) \<and>
          notna (Adj_Resistance closes rsi lookback ! i)"
  then have ok: "ok rsi lookback i"
    by (simp add: Adj_Support_nth [OF assms] split: if_splits)
  then have "1 \<le> lookback" by (simp add: ok_def)
  note ord = adj_order(3,4) [OF assms(2) this, of rsi]
  show "\<exists>s m r. Adj_Support closes rsi lookback ! i = Fin s \<and>
                 Midline closes rsi lookback ! i = Fin m \<and>
                 Adj_Resistance closes rsi lookback ! i = Fin r \<and> s \<le> m \<and> m \<le> r"
    using ok ord
    by (simp add: Adj_Support_nth [OF assms] Adj_Resistance_nth [OF assms] Midline_nth [OF assms])
next
  let ?W = "[Suc i - smoothLength..<Suc i]"
  assume "notna (Smooth_Support closes rsi lookback smoothLength ! i) \<and>
          notna (Smooth_Midline closes rsi lookback smoothLength ! i) \<and>
          notna (Smooth_Resistance closes rsi lookback smoothLength ! i)"
  then have ok: "smooth_ok rsi lookback smoothLength i"
    by (simp add: Smooth_Support_nth [OF assms] split: if_splits)
  then have "ok rsi lookback i" by (rule smooth_ok_last)
  then have L: "1 \<le> lookback" by (simp add: ok_def)
  have in_range: "j < length closes" if "j \<in> set ?W" for j
    using that assms(2) by auto
  have "mean (map (adj_lo closes rsi lookback) ?W) \<le> mean (map (mid closes rsi lookback) ?W)"
    by (rule mean_map_mono) (rule adj_order(3) [OF in_range L])
  moreover
  have "mean (map (mid closes rsi lookback) ?W) \<le> mean (map (adj_hi closes rsi lookback) ?W)"
    by (rule mean_map_mono) (rule adj_order(4) [OF in_range L])
  ultimately
  show "\<exists>s m r. Smooth_Support closes rsi lookback smoothLength ! i = Fin s \<and>
                 Smooth_Midline closes rsi lookback smoothLength ! i = Fin m \<and>
                 Smooth_Resistance closes rsi lookback smoothLength ! i = Fin r \<and>
                 s \<le> m \<and> m \<le> r"
    using ok
    by (simp only: Smooth_Support_nth [OF assms] Smooth_Resistance_nth [OF assms]
        Smooth_Midline_nth [OF assms] if_True) blast
qed

theorem channel_ordering_witness:
  "rsi_series [3, 1, 2, 5, 4, 6, 2] 3 =
     Inr [NaN, Fin 0, Fin (100 / 3), Fin (200 / 3), Fin 80, Fin (250 / 3), Fin (200 / 7)] \<and>
   (5::nat) < length [3, 1, 2, 5, 4, 6, 2 :: real] \<and>
   Adj_Support [3, 1, 2, 5, 4, 6, 2]
     [NaN, Fin 0, Fin (100 / 3), Fin (200 / 3), Fin 80, Fin (250 / 3), Fin (200 / 7)] 5 ! 5
     = Fin (- (7 / 3)) \<and>
   Midline [3, 1, 2, 5, 4, 6, 2]
     [NaN, Fin 0, Fin (100 / 3), Fin (200 / 3), Fin 80, Fin (250 / 3), Fin (200 / 7)] 5 ! 5
     = Fin (7 / 2) \<and>
   Adj_Resistance [3, 1, 2, 5, 4, 6, 2]
     [NaN, Fin 0, Fin (100 / 3), Fin (200 / 3), Fin 80, Fin (250 / 3), Fin (200 / 7)] 5 ! 5
     = Fin (28 / 3) \<and>
   Smooth_Support [3, 1, 2, 5, 4, 6, 2]
     [NaN, Fin 0, Fin (100 / 3), Fin (200 / 3), Fin 80, Fin (250 / 3), Fin (200 / 7)] 5 2 ! 5
     = Fin (- (28 / 15)) \<and>
   Smooth_Midline [3, 1, 2, 5, 4, 6, 2]
     [NaN, Fin 0, Fin (100 / 3), Fin (200 / 3), Fin 80, Fin (250 / 3), Fin (200 / 7)] 5 2 ! 5
     = Fin (13 / 4) \<and>
   Smooth_Resistance [3, 1, 2, 5, 4, 6, 2]
     [NaN, Fin 0, Fin (100 / 3), Fin (200 / 3), Fin 80, Fin (250 / 3), Fin (200 / 7)] 5 2 ! 5
     = Fin (251 / 30) \<and>
   - (7 / 3) \<le> (7 / 2 :: real) \<and> (7 / 2 :: real) \<le> 28 / 3 \<and>
   - (28 / 15) \<le> (13 / 4 :: real) \<and> (13 / 4 :: real) \<le> 251 / 30"
proof -
  let ?c = "[3, 1, 2, 5, 4, 6, 2] :: real list"
  let ?r = "[NaN, Fin 0, Fin (100 / 3), Fin (200 / 3), Fin 80, Fin (250 / 3), Fin (200 / 7)]"
  have v: "rsi_series ?c 3 = Inr ?r" by code_simp
  have i: "(5::nat) < length ?c" by simp
  have a: "Adj_Support ?c ?r 5 ! 5 = Fin (- (7 / 3))" by code_simp
  have m: "Midline ?c ?r 5 ! 5 = Fin (7 / 2)" by code_simp
  have b: "Adj_Resistance ?c ?r 5 ! 5 = Fin (28 / 3)" by code_simp
  have sa: "Smooth_Support ?c ?r 5 2 ! 5 = Fin (- (28 / 15))" by code_simp
  have sm: "Smooth_Midline ?c ?r 5 2 ! 5 = Fin (13 / 4)" by code_simp
  have sb: "Smooth_Resistance ?c ?r 5 2 ! 5 = Fin (251 / 30)" by code_simp
  from channel_ordering [OF v i, of 5 2]
  have "- (7 / 3) \<le> (7 / 2 :: real) \<and> (7 / 2 :: real) \<le> 28 / 3 \<and>
        - (28 / 15) \<le> (13 / 4 :: real) \<and> (13 / 4 :: real) \<le> 251 / 30"
    unfolding a m b sa sm sb by simp
  with v i a m b sa sm sb show ?thesis by blast
qed

section \<open>The valid region\<close>

lemma smooth_ok_iff:
  assumes "1 \<le> lookback" and "1 \<le> smoothLength"
  shows "smooth_ok rsi lookback smoothLength i \<longleftrightarrow>
     lookback + smoothLength - 2 \<le> i \<and> (\<forall>j\<in>{Suc i - smoothLength..i}. notna (rsi ! j))"
proof
  assume a: "smooth_ok rsi lookback smoothLength i"
  then have s: "smoothLength \<le> Suc i" by (simp add: smooth_ok_def)
  then have "Suc i - smoothLength \<in> {Suc i - smoothLength..i}"
    using assms(2) by simp
  then have "ok rsi lookback (Suc i - smoothLength)"
    using a unfolding smooth_ok_def by blast
  then have "lookback \<le> Suc (Suc i - smoothLength)" by (simp add: ok_def)
  then have "lookback + smoothLength - 2 \<le> i" using s by arith
  moreover have "\<forall>j\<in>{Suc i - smoothLength..i}. notna (rsi ! j)"
    using a unfolding smooth_ok_def ok_def by blast
  ultimately show "lookback + smoothLength - 2 \<le> i \<and> (\<forall>j\<in>{Suc i - smoothLength..i}. notna (rsi ! j))"
    by simp
next
  assume b: "lookback + smoothLength - 2 \<le> i \<and> (\<forall>j\<in>{Suc i - smoothLength..i}. notna (rsi ! j))"
  have s: "smoothLength \<le> Suc i" using b assms by arith
  have "ok rsi lookback j" if "j \<in> {Suc i - smoothLength..i}" for j
  proof -
    have "lookback \<le> Suc j" using that b assms by (simp; arith)
    then show ?thesis using that b assms(1) by (simp add: ok_def)
  qed
  then show "smooth_ok rsi lookback smoothLength i"
    using s assms(2) by (simp add: smooth_ok_def)
qed

lemma valid_index_iff:
  assumes "rsi_series closes period = Inr rsi"
  shows "i \<in> set (valid_index closes rsi lookback smoothLength) \<longleftrightarrow>
     i < length closes \<and> smooth_ok rsi lookback smoothLength i"
proof (cases "i < length closes")
  case True
  have "notna (rsi ! i)" if "smooth_ok rsi lookback smoothLength i"
    using smooth_ok_last [OF that] by (simp add: ok_def)
  then show ?thesis
    using True
    by (auto simp add: valid_index_def Smooth_Support_nth [OF assms True]
        Smooth_Resistance_nth [OF assms True] Smooth_Midline_nth [OF assms True])
next
  case False
  then show ?thesis by (simp add: valid_index_def)
qed

section \<open>Warm-up and shape of the valid region\<close>

text \<open>
  C4 (as stated): the smoothed columns are defined from position
  \<open>lookback + smoothLength - 2\<close> onward. This fails where the oscillator is undefined:
  with closes 1, 2, 3, 4, 5, 5, 5, period 2, lookback 5 and smoothing length 1 the
  smoothed support at position 6 is undefined, although \<open>5 + 1 - 2 \<le> 6\<close>.
\<close>

theorem warm_up_counterexample:
  "rsi_series [1, 2, 3, 4, 5, 5, 5] 2 =
     Inr [NaN, Fin 100, Fin 100, Fin 100, Fin 100, Fin 100, NaN] \<and>
   (5::nat) + 1 - 2 \<le> 6 \<and> (6::nat) < length [1, 2, 3, 4, 5, 5, 5 :: real] \<and>
   Smooth_Support [1, 2, 3, 4, 5, 5, 5]
     [NaN, Fin 100, Fin 100, Fin 100, Fin 100, Fin 100, NaN] 5 1 ! 6 = NaN"
  by code_simp

text \<open>
  C4 (amended): for lookback and smoothing length of at least 1, base support and base
  resistance are undefined at positions \<open>0 .. lookback - 2\<close> and defined from position
  \<open>lookback - 1\<close> onward; smoothed support, resistance and midline are undefined
  before position \<open>lookback + smoothLength - 2\<close>, and from there on they are defined
  exactly where the oscillator is defined at each of the \<open>smoothLength\<close> positions
  of the smoothing window.
\<close>

theorem warm_up:
  assumes "rsi_series closes period = Inr rsi" and "i < length closes"
    and "1 \<le> lookback" and "1 \<le> smoothLength"
  shows "(notna (Base_Support closes lookback ! i) \<longleftrightarrow> lookback - 1 \<le> i) \<and>
         (notna (Base_Resistance closes lookback ! i) \<longleftrightarrow> lookback - 1 \<le> i) \<and>
         (notna (Smooth_Support closes rsi lookback smoothLength ! i) \<longleftrightarrow>
            lookback + smoothLength - 2 \<le> i \<and>
            (\<forall>j\<in>{Suc i - smoothLength..i}. notna (rsi ! j))) \<and>
         (notna (Smooth_Resistance closes rsi lookback smoothLength ! i) \<longleftrightarrow>
            lookback + smoothLength - 2 \<le> i \<and>
            (\<forall>j\<in>{Suc i - smoothLength..i}. notna (rsi ! j))) \<and>
         (notna (Smooth_Midline closes rsi lookback smoothLength ! i) \<longleftrightarrow>
            lookback + smoothLength - 2 \<le> i \<and>
            (\<forall>j\<in>{Suc i - smoothLength..i}. notna (rsi ! j)))"
proof -
  have base: "lookback \<le> Suc i \<longleftrightarrow> lookback - 1 \<le> i"
    using assms(3) by arith
  have b1: "notna (Base_Support closes lookback ! i) \<longleftrightarrow> lookback - 1 \<le> i"
    using assms(2,3) base by (simp add: Base_Support_nth)
  have b2: "notna (Base_Resistance closes lookback ! i) \<longleftrightarrow> lookback - 1 \<le> i"
    using assms(2,3) base by (simp add: Base_Resistance_nth)
  note iff = smooth_ok_iff [OF assms(3,4), of rsi i]
  have s1: "notna (Smooth_Support closes rsi lookback smoothLength ! i) \<longleftrightarrow>
      smooth_ok rsi lookback smoothLength i"
    by (simp add: Smooth_Support_nth [OF assms(1,2)])
  have s2: "notna (Smooth_Resistance closes rsi lookback smoothLength ! i) \<longleftrightarrow>
      smooth_ok rsi lookback smoothLength i"
    by (simp add: Smooth_Resistance_nth [OF assms(1,2)])
  have s3: "notna (Smooth_Midline closes rsi lookback smoothLength ! i) \<longleftrightarrow>
      smooth_ok rsi lookback smoothLength i"
    by (simp add: Smooth_Midline_nth [OF assms(1,2)])
  show ?thesis
    unfolding b1 b2 s1 s2 s3 iff by simp
qed

theorem warm_up_witness:
  "rsi_series [1, 2, 3, 4, 5, 5, 5] 2 =
     Inr [NaN, Fin 100, Fin 100, Fin 100, Fin 100, Fin 100, NaN] \<and>
   (5::nat) < length [1, 2, 3, 4, 5, 5, 5 :: real] \<and> (1::nat) \<le> 5 \<and> (1::nat) \<le> 1 \<and>
   notna (Base_Support [1, 2, 3, 4, 5, 5, 5] 5 ! 5) \<and>
   notna (Smooth_Support [1, 2, 3, 4, 5, 5, 5]
     [NaN, Fin 100, Fin 100, Fin 100, Fin 100, Fin 100, NaN] 5 1 ! 5)"
proof -
  let ?c = "[1, 2, 3, 4, 5, 5, 5] :: real list"
  let ?r = "[NaN, Fin 100, Fin 100, Fin 100, Fin 100, Fin 100, NaN]"
  have v: "rsi_series ?c 2 = Inr ?r" by code_simp
  have i: "(5::nat) < length ?c" by simp
  have l: "(1::nat) \<le> 5" and s: "(1::nat) \<le> 1" by simp_all
  from warm_up [OF v i l s]
  have "notna (Base_Support ?c 5 ! 5)" and "notna (Smooth_Support ?c ?r 5 1 ! 5)"
    by simp_all
  with v i show ?thesis by simp
qed

text \<open>
  C9 (as stated): the valid region is a trailing block of positions. This fails when
  the oscillator is undefined inside the series: with closes 1, 2, 3, 4, 5, 6, 6, 6, 7,
  period 2, lookback 5 and smoothing length 1 the rows kept are 4, 5, 6 and 8, so the
  valid position 6 is followed by the dropped position 7.
\<close>

theorem valid_region_counterexample:
  "rsi_series [1, 2, 3, 4, 5, 6, 6, 6, 7] 2 =
     Inr [NaN, Fin 100, Fin 100, Fin 100, Fin 100, Fin 100, Fin 100, NaN, Fin 100] \<and>
   valid_index [1, 2, 3, 4, 5, 6, 6, 6, 7]
     [NaN, Fin 100, Fin 100, Fin 100, Fin 100, Fin 100, Fin 100, NaN, Fin 100] 5 1 = [4, 5, 6, 8]"
  by code_simp

text \<open>
  C9 (amended): for lookback and smoothing length of at least 1, the valid region is
  the set of positions \<open>i \<ge> lookback + smoothLength - 2\<close> at which the oscillator is
  defined on the whole smoothing window \<open>i - smoothLength + 1 .. i\<close>; it is a
  contiguous trailing sub-sequence whenever no defined oscillator value is followed by
  an undefined one.
\<close>

theorem valid_region:
  assumes "rsi_series closes period = Inr rsi" and "1 \<le> lookback" and "1 \<le> smoothLength"
  shows "set (valid_index closes rsi lookback smoothLength) =
           {i. i < length closes \<and> lookback + smoothLength - 2 \<le> i \<and>
               (\<forall>j\<in>{Suc i - smoothLength..i}. notna (rsi ! j))} \<and>
         ((\<forall>j. Suc j < length closes \<and> notna (rsi ! j) \<longrightarrow> notna (rsi ! Suc j)) \<longrightarrow>
          (\<forall>i\<in>set (valid_index closes rsi lookback smoothLength).
             Suc i < length closes \<longrightarrow> Suc i \<in> set (valid_index closes rsi lookback smoothLength)))"
proof (intro conjI impI ballI)
  show eq: "set (valid_index closes rsi lookback smoothLength) =
           {i. i < length closes \<and> lookback + smoothLength - 2 \<le> i \<and>
               (\<forall>j\<in>{Suc i - smoothLength..i}. notna (rsi ! j))}"
    using valid_index_iff [OF assms(1), of _ lookback smoothLength]
      smooth_ok_iff [OF assms(2,3), of rsi]
    by blast
  fix i
  assume step: "\<forall>j. Suc j < length closes \<and> notna (rsi ! j) \<longrightarrow> notna (rsi ! Suc j)"
    and i: "i \<in> set (valid_index closes rsi lookback smoothLength)"
    and n: "Suc i < length closes"
  from i have a: "lookback + smoothLength - 2 \<le> i"
    and b: "\<forall>j\<in>{Suc i - smoothLength..i}. notna (rsi ! j)"
    unfolding eq by simp_all
  have "i \<in> {Suc i - smoothLength..i}" using assms(3) by (simp; arith)
  then have "notna (rsi ! i)" using b by blast
  then have last: "notna (rsi ! Suc i)" using step n by blast
  have "notna (rsi ! j)" if "j \<in> {Suc (Suc i) - smoothLength..Suc i}" for j
  proof (cases "j = Suc i")
    case True
    then show ?thesis using last by simp
  next
    case False
    then have "j \<in> {Suc i - smoothLength..i}" using that by (simp; arith)
    then show ?thesis using b by blast
  qed
  then show "Suc i \<in> set (valid_index closes rsi lookback smoothLength)"
    unfolding eq using a n by simp
qed

theorem valid_region_witness:
  "rsi_series [3, 1, 2, 5, 4, 6, 2] 3 =
     Inr [NaN, Fin 0, Fin (100 / 3), Fin (200 / 3), Fin 80, Fin (250 / 3), Fin (200 / 7)] \<and>
   (1::nat) \<le> 5 \<and> (1::nat) \<le> 2 \<and>
   valid_index [3, 1, 2, 5, 4, 6, 2]
     [NaN, Fin 0, Fin (100 / 3), Fin (200 / 3), Fin 80, Fin (250 / 3), Fin (200 / 7)] 5 2 = [5, 6] \<and>
   Suc 5 < length [3, 1, 2, 5, 4, 6, 2 :: real] \<and>
   Suc 5 \<in> set (valid_index [3, 1, 2, 5, 4, 6, 2]
     [NaN, Fin 0, Fin (100 / 3), Fin (200 / 3), Fin 80, Fin (250 / 3), Fin (200 / 7)] 5 2)"
proof -
  let ?c = "[3, 1, 2, 5, 4, 6, 2] :: real list"
  let ?r = "[NaN, Fin 0, Fin (100 / 3), Fin (200 / 3), Fin 80, Fin (250 / 3), Fin (200 / 7)]"
  have v: "rsi_series ?c 3 = Inr ?r" by code_simp
  have l: "(1::nat) \<le> 5" and s: "(1::nat) \<le> 2" by simp_all
  have idx: "valid_index ?c ?r 5 2 = [5, 6]" by code_simp
  have n: "Suc 5 < length ?c" by simp
  have step: "\<forall>j. Suc j < length ?c \<and> notna (?r ! j) \<longrightarrow> notna (?r ! Suc j)"
  proof (intro allI impI)
    fix j :: nat
    assume a: "Suc j < length ?c \<and> notna (?r ! j)"
    then have "j \<in> {0, 1, 2, 3, 4, 5}" by auto
    then show "notna (?r ! Suc j)" using a by auto
  qed
  have five: "5 \<in> set (valid_index ?c ?r 5 2)" unfolding idx by simp
  from valid_region [OF v l s] step five n
  have "Suc 5 \<in> set (valid_index ?c ?r 5 2)" by blast
  with v idx n show ?thesis by simp
qed

section \<open>Saturation of the oscillator\<close>

lemma sum_list_zero: "(\<And>x. x \<in> set xs \<Longrightarrow> x = 0) \<Longrightarrow> sum_list xs = (0::real)"
  by (induction xs) auto

lemma mean_zero: "(\<And>x. x \<in> set xs \<Longrightarrow> x = 0) \<Longrightarrow> mean xs = 0"
  by (simp add: mean_def sum_list_zero)

lemma flat_gains:
  assumes "\<forall>j<length closes. closes ! j = closes ! 0" and "x \<in> set (gains closes)"
  shows "x = 0"
  using assms by (auto simp add: gains_def)

lemma flat_losses:
  assumes "\<forall>j<length closes. closes ! j = closes ! 0" and "x \<in> set (losses closes)"
  shows "x = 0"
  using assms by (auto simp add: losses_def)

lemma flat_averages:
  assumes "\<forall>j<length closes. closes ! j = closes ! 0"
  shows "mean (window period (gains closes) i) = 0"
    and "mean (window period (losses closes) i) = 0"
proof -
  show "mean (window period (gains closes) i) = 0"
    using set_window [of period "gains closes" i] flat_gains [OF assms]
    by (intro mean_zero) blast
  show "mean (window period (losses closes) i) = 0"
    using set_window [of period "losses closes" i] flat_losses [OF assms]
    by (intro mean_zero) blast
qed

lemma rsi_flat:
  assumes "rsi_series closes period = Inr rsi" and "i < length closes"
    and "\<forall>j<length closes. closes ! j = closes ! 0"
  shows "avg_loss closes period ! i = Fin 0" and "rsi ! i = NaN"
proof -
  have p: "1 \<le> period" using assms(1) by (simp add: rsi_series_Inr)
  show "avg_loss closes period ! i = Fin 0"
    by (simp add: avg_loss_nth [OF assms(2) p] flat_averages [OF assms(3)])
  show "rsi ! i = NaN"
    by (simp add: rsi_nth [OF assms(1,2)] flat_averages [OF assms(3)])
qed

text \<open>
  C2 (as stated): whenever the trailing average loss is 0 the oscillator is 100, and 100
  identical closes give 100 at every position after the first. This fails: for 100
  identical closes both trailing averages are 0 at position 1, the ratio is 0 / 0 and
  the oscillator is undefined there (and at every other position).
\<close>

theorem saturation_counterexample:
  "avg_loss (replicate 100 10) 14 ! 1 = Fin 0 \<and>
   avg_gain (replicate 100 10) 14 ! 1 = Fin 0 \<and>
   rsi_series (replicate 100 10) 14 = Inr (replicate 100 NaN) \<and>
   replicate 100 NaN ! 1 \<noteq> Fin 100"
proof -
  let ?c = "replicate 100 10 :: real list"
  obtain rsi where r: "rsi_series ?c 14 = Inr rsi"
    by (simp add: rsi_series_def)
  have flat: "\<forall>j<length ?c. ?c ! j = ?c ! 0" by simp
  have "rsi ! i = NaN" if "i < 100" for i
    using rsi_flat(2) [OF r _ flat, of i] that by simp
  then have "rsi = replicate 100 NaN"
    using rsi_series_length [OF r] by (intro nth_equalityI) simp_all
  moreover have "avg_loss ?c 14 ! 1 = Fin 0"
    using rsi_flat(1) [OF r _ flat, of 1] by simp
  moreover have "avg_gain ?c 14 ! 1 = Fin 0"
    using avg_gain_nth [of 1 ?c 14] flat_averages(1) [OF flat, of 14 1] by simp
  ultimately show ?thesis using r by simp
qed

text \<open>
  C2 (amended): whenever the trailing average loss is 0, the oscillator equals 100 if
  the trailing average gain is positive and is undefined if the trailing average gain
  is 0 as well; in particular, for an input of identical closes the trailing average
  loss is 0 and the oscillator is undefined at every position.
\<close>

theorem saturation:
  assumes "rsi_series closes period = Inr rsi" and "i < length closes"
  shows "(avg_loss closes period ! i = Fin 0 \<longrightarrow>
           (\<exists>g. avg_gain closes period ! i = Fin g \<and> 0 \<le> g \<and>
                rsi ! i = (if g = 0 then NaN else Fin 100))) \<and>
         ((\<forall>j<length closes. closes ! j = closes ! 0) \<longrightarrow>
           avg_loss closes period ! i = Fin 0 \<and> rsi ! i = NaN)"
proof (intro conjI impI)
  have p: "1 \<le> period" using assms(1) by (simp add: rsi_series_Inr)
  assume "avg_loss closes period ! i = Fin 0"
  then have "mean (window period (losses closes) i) = 0"
    by (simp add: avg_loss_nth [OF assms(2) p])
  then have "rsi ! i = (if mean (window period (gains closes) i) = 0 then NaN else Fin 100)"
    by (simp add: rsi_nth [OF assms])
  then show "\<exists>g. avg_gain closes period ! i = Fin g \<and> 0 \<le> g \<and>
                rsi ! i = (if g = 0 then NaN else Fin 100)"
    using avg_gain_nonneg [of period closes i] by (simp add: avg_gain_nth [OF assms(2) p])
next
  assume "\<forall>j<length closes. closes ! j = closes ! 0"
  then show "avg_loss closes period ! i = Fin 0" and "rsi ! i = NaN"
    using rsi_flat [OF assms] by simp_all
qed

theorem saturation_witness:
  "rsi_series [1, 2, 3, 4, 5, 5, 5] 2 =
     Inr [NaN, Fin 100, Fin 100, Fin 100, Fin 100, Fin 100, NaN] \<and>
   (3::nat) < length [1, 2, 3, 4, 5, 5, 5 :: real] \<and>
   avg_loss [1, 2, 3, 4, 5, 5, 5] 2 ! 3 = Fin 0 \<and>
   avg_gain [1, 2, 3, 4, 5, 5, 5] 2 ! 3 = Fin 1 \<and>
   [NaN, Fin 100, Fin 100, Fin 100, Fin 100, Fin 100, NaN] ! 3 = Fin 100 \<and>
   rsi_series [7, 7, 7] 2 = Inr [NaN, NaN, NaN] \<and>
   (2::nat) < length [7, 7, 7 :: real] \<and>
   avg_loss [7, 7, 7] 2 ! 2 = Fin 0 \<and> [NaN, NaN, NaN] ! 2 = NaN"
proof -
  let ?c = "[1, 2, 3, 4, 5, 5, 5] :: real list"
  let ?r = "[NaN, Fin 100, Fin 100, Fin 100, Fin 100, Fin 100, NaN]"
  have v: "rsi_series ?c 2 = Inr ?r" by code_simp
  have i: "(3::nat) < length ?c" by simp
  have l: "avg_loss ?c 2 ! 3 = Fin 0" by code_simp
  have g: "avg_gain ?c 2 ! 3 = Fin 1" by code_simp
  from saturation [OF v i] l g have one: "?r ! 3 = Fin 100" by simp
  let ?f = "[7, 7, 7] :: real list"
  have vf: "rsi_series ?f 2 = Inr [NaN, NaN, NaN]" by code_simp
  have k: "(2::nat) < length ?f" by simp
  have flat: "\<forall>j<length ?f. ?f ! j = ?f ! 0"
    by (simp add: less_Suc_eq numeral_3_eq_3)
  from saturation [OF vf k] flat
  have two: "avg_loss ?f 2 ! 2 = Fin 0 \<and> [NaN, NaN, NaN] ! 2 = NaN" by blast
  from v i l g one vf k two show ?thesis by blast
qed

section \<open>Facts about the valid rows and the signals\<close>

lemma length_rows [simp]: "length (rows idx col) = length idx"
  by (simp add: rows_def)

lemma rows_nth: "k < length idx \<Longrightarrow> rows idx col ! k = col ! (idx ! k)"
  by (simp add: rows_def)

lemma length_Buy_Signal:
  "length vs = length vc \<Longrightarrow> length vr = length vc \<Longrightarrow> length (Buy_Signal vc vs vr) = length vc"
  by (simp add: Buy_Signal_def)

lemma length_Sell_Signal:
  "length vs = length vc \<Longrightarrow> length vr = length vc \<Longrightarrow> length (Sell_Signal vc vs vr) = length vc"
  by (simp add: Sell_Signal_def)

lemma Buy_Signal_nth:
  assumes "length vs = length vc" and "length vr = length vc" and "k < length vc"
  shows "Buy_Signal vc vs vr ! k \<longleftrightarrow>
     fgt (vc ! k) (vs ! k) \<and> fle (shift1 vc ! k) (shift1 vs ! k) \<and> fgt (vr ! k) (shift1 vr ! k)"
  using assms by (simp add: Buy_Signal_def)

lemma Sell_Signal_nth:
  assumes "length vs = length vc" and "length vr = length vc" and "k < length vc"
  shows "Sell_Signal vc vs vr ! k \<longleftrightarrow>
     flt (vc ! k) (vs ! k) \<and> fge (shift1 vc ! k) (shift1 vs ! k) \<and> flt (vr ! k) (shift1 vr ! k)"
  using assms by (simp add: Sell_Signal_def)

lemma pipeline_InrD:
  assumes "pipeline closes period lookback smoothLength = Inr rep"
  obtains rsi where "rsi_series closes period = Inr rsi"
    and "index rep = valid_index closes rsi lookback smoothLength"
    and "index rep \<noteq> []"
    and "close_col rep = rows (index rep) (map Fin closes)"
    and "rsi_col rep = rows (index rep) rsi"
    and "support_col rep = rows (index rep) (Smooth_Support closes rsi lookback smoothLength)"
    and "resistance_col rep = rows (index rep) (Smooth_Resistance closes rsi lookback smoothLength)"
    and "midline_col rep = rows (index rep) (Smooth_Midline closes rsi lookback smoothLength)"
    and "buy_col rep = Buy_Signal (close_col rep) (support_col rep) (rsi_col rep)"
    and "sell_col rep = Sell_Signal (close_col rep) (resistance_col rep) (rsi_col rep)"
  using assms unfolding pipeline_def Let_def
  by (auto split: if_splits sum.splits)

lemma valid_index_sorted: "sorted_wrt (<) (valid_index closes rsi lookback smoothLength)"
  unfolding valid_index_def by (intro sorted_wrt_filter) simp

lemma valid_cells:
  assumes "rsi_series closes period = Inr rsi"
    and "i \<in> set (valid_index closes rsi lookback smoothLength)"
  shows "i < length closes"
    and "\<exists>s. Smooth_Support closes rsi lookback smoothLength ! i = Fin s"
    and "\<exists>r. Smooth_Resistance closes rsi lookback smoothLength ! i = Fin r"
    and "\<exists>m. Smooth_Midline closes rsi lookback smoothLength ! i = Fin m"
    and "\<exists>v. rsi ! i = Fin v"
proof -
  from assms(2) have n: "i < length closes"
    and ok: "smooth_ok rsi lookback smoothLength i"
    by (simp_all add: valid_index_iff [OF assms(1)])
  show "i < length closes" by (rule n)
  show "\<exists>s. Smooth_Support closes rsi lookback smoothLength ! i = Fin s"
    and "\<exists>r. Smooth_Resistance closes rsi lookback smoothLength ! i = Fin r"
    and "\<exists>m. Smooth_Midline closes rsi lookback smoothLength ! i = Fin m"
    using ok by (simp_all add: Smooth_Support_nth [OF assms(1) n]
        Smooth_Resistance_nth [OF assms(1) n] Smooth_Midline_nth [OF assms(1) n])
  have "notna (rsi ! i)" using smooth_ok_last [OF ok] by (simp add: ok_def)
  then show "\<exists>v. rsi ! i = Fin v"
    using rsi_range [OF assms(1) n] by auto
qed

lemma sorted_gap:
  assumes "sorted_wrt (<) (xs :: nat list)" and "0 < k" and "k < length xs"
    and "xs ! (k - 1) < j" and "j < xs ! k"
  shows "j \<notin> set xs"
proof
  assume "j \<in> set xs"
  then obtain m where m: "m < length xs" "xs ! m = j"
    by (auto simp add: in_set_conv_nth)
  show False
  proof (cases "m < k")
    case True
    then have "m = k - 1 \<or> m < k - 1" by arith
    moreover have "k - 1 < length xs" using assms(3) by arith
    ultimately have "xs ! m \<le> xs ! (k - 1)"
      using sorted_wrt_nth_less [OF assms(1), of m "k - 1"] by auto
    then show False using m assms(4) by simp
  next
    case False
    then have "m = k \<or> k < m" by arith
    then have "xs ! k \<le> xs ! m"
      using sorted_wrt_nth_less [OF assms(1), of k m] m(1) by auto
    then show False using m assms(5) by simp
  qed
qed

lemma fle_NaN_right [simp]: "\<not> fle x NaN"
  by (cases x) simp_all

lemma flt_NaN_right [simp]: "\<not> flt x NaN"
  by (cases x) simp_all

lemma flt_NaN_left [simp]: "\<not> flt NaN x"
  by simp

section \<open>The signals\<close>

text \<open>
  C8: whenever the pipeline returns a report, the first row of the valid region
  carries neither a buy signal nor a sell signal (both signal columns have one flag per
  valid row, and there is at least one row).
\<close>

theorem first_row_no_signal:
  assumes "pipeline closes period lookback smoothLength = Inr rep"
  shows "length (buy_col rep) = length (index rep) \<and> length (sell_col rep) = length (index rep) \<and>
         0 < length (index rep) \<and> \<not> buy_col rep ! 0 \<and> \<not> sell_col rep ! 0"
proof -
  from assms obtain rsi where
    ne: "index rep \<noteq> []"
    and c: "close_col rep = rows (index rep) (map Fin closes)"
    and v: "rsi_col rep = rows (index rep) rsi"
    and s: "support_col rep = rows (index rep) (Smooth_Support closes rsi lookback smoothLength)"
    and r: "resistance_col rep = rows (index rep) (Smooth_Resistance closes rsi lookback smoothLength)"
    and buy: "buy_col rep = Buy_Signal (close_col rep) (support_col rep) (rsi_col rep)"
    and sell: "sell_col rep = Sell_Signal (close_col rep) (resistance_col rep) (rsi_col rep)"
    by (rule pipeline_InrD)
  have len: "length (support_col rep) = length (close_col rep)"
    "length (resistance_col rep) = length (close_col rep)"
    "length (rsi_col rep) = length (close_col rep)"
    "length (close_col rep) = length (index rep)"
    by (simp_all add: c v s r)
  have pos: "0 < length (close_col rep)" using ne len by simp
  have "\<not> buy_col rep ! 0"
    unfolding buy Buy_Signal_nth [OF len(1,3) pos] using pos by (simp add: shift1_nth)
  moreover have "\<not> sell_col rep ! 0"
    unfolding sell Sell_Signal_nth [OF len(2,3) pos] using pos by (simp add: shift1_nth fge_def)
  ultimately show ?thesis
    using pos len by (simp add: buy sell length_Buy_Signal length_Sell_Signal)
qed

theorem first_row_no_signal_witness:
  "pipeline [5, 4, 3, 2, 1, 3, 1, 4, 2, 6] 2 5 1 =
     Inr \<lparr>index = [4, 5, 6, 7, 8, 9],
          close_col = [Fin 1, Fin 3, Fin 1, Fin 4, Fin 2, Fin 6],
          rsi_col = [Fin 0, Fin (200 / 3), Fin 50, Fin 60, Fin 60, Fin (200 / 3)],
          support_col = [Fin (- 3), Fin 0, Fin 1, Fin (2 / 5), Fin (2 / 5), Fin (- (2 / 3))],
          resistance_col = [Fin 9, Fin 5, Fin 3, Fin (23 / 5), Fin (23 / 5), Fin (23 / 3)],
          midline_col = [Fin 3, Fin (5 / 2), Fin 2, Fin (5 / 2), Fin (5 / 2), Fin (7 / 2)],
          buy_col = [False, False, False, True, False, False],
          sell_col = [False, False, False, False, False, False],
          latest_action = WAIT\<rparr> \<and>
   \<not> [False, False, False, True, False, False] ! 0 \<and>
   \<not> [False, False, False, False, False, False] ! 0"
proof -
  have run: "pipeline [5, 4, 3, 2, 1, 3, 1, 4, 2, 6] 2 5 1 =
     Inr \<lparr>index = [4, 5, 6, 7, 8, 9],
          close_col = [Fin 1, Fin 3, Fin 1, Fin 4, Fin 2, Fin 6],
          rsi_col = [Fin 0, Fin (200 / 3), Fin 50, Fin 60, Fin 60, Fin (200 / 3)],
          support_col = [Fin (- 3), Fin 0, Fin 1, Fin (2 / 5), Fin (2 / 5), Fin (- (2 / 3))],
          resistance_col = [Fin 9, Fin 5, Fin 3, Fin (23 / 5), Fin (23 / 5), Fin (23 / 3)],
          midline_col = [Fin 3, Fin (5 / 2), Fin 2, Fin (5 / 2), Fin (5 / 2), Fin (7 / 2)],
          buy_col = [False, False, False, True, False, False],
          sell_col = [False, False, False, False, False, False],
          latest_action = WAIT\<rparr>"
    by code_simp
  from first_row_no_signal [OF run]
  have "\<not> [False, False, False, True, False, False] ! 0 \<and>
        \<not> [False, False, False, False, False, False] ! 0"
    by simp
  with run show ?thesis by (rule conjI)
qed

text \<open>
  C1: at every row \<open>k > 0\<close> of the valid region, with \<open>k - 1\<close> the previous row of
  the valid region (the closest earlier position that was kept), all compared cells
  are finite numbers, the buy flag holds iff close[k] > support[k] and
  close[k-1] \<open>\<le>\<close> support[k-1] and oscillator[k] > oscillator[k-1], and the sell flag
  holds iff close[k] < resistance[k] and close[k-1] \<open>\<ge>\<close> resistance[k-1] and
  oscillator[k] < oscillator[k-1], on the smoothed support and resistance.
\<close>

theorem signal_rule:
  assumes "pipeline closes period lookback smoothLength = Inr rep"
    and "0 < k" and "k < length (index rep)"
  shows "\<exists>rsi. rsi_series closes period = Inr rsi \<and>
     index rep = valid_index closes rsi lookback smoothLength \<and>
     close_col rep = rows (index rep) (map Fin closes) \<and>
     rsi_col rep = rows (index rep) rsi \<and>
     support_col rep = rows (index rep) (Smooth_Support closes rsi lookback smoothLength) \<and>
     resistance_col rep = rows (index rep) (Smooth_Resistance closes rsi lookback smoothLength) \<and>
     index rep ! (k - 1) < index rep ! k \<and>
     (\<forall>j. index rep ! (k - 1) < j \<and> j < index rep ! k \<longrightarrow> j \<notin> set (index rep)) \<and>
     (\<exists>c c' s s' r r' v v'.
        close_col rep ! k = Fin c \<and> close_col rep ! (k - 1) = Fin c' \<and>
        support_col rep ! k = Fin s \<and> support_col rep ! (k - 1) = Fin s' \<and>
        resistance_col rep ! k = Fin r \<and> resistance_col rep ! (k - 1) = Fin r' \<and>
        rsi_col rep ! k = Fin v \<and> rsi_col rep ! (k - 1) = Fin v' \<and>
        (buy_col rep ! k \<longleftrightarrow> c > s \<and> c' \<le> s' \<and> v > v') \<and>
        (sell_col rep ! k \<longleftrightarrow> c < r \<and> c' \<ge> r' \<and> v < v'))"
proof -
  from assms(1) obtain rsi where
    rsi: "rsi_series closes period = Inr rsi"
    and idx: "index rep = valid_index closes rsi lookback smoothLength"
    and c: "close_col rep = rows (index rep) (map Fin closes)"
    and v: "rsi_col rep = rows (index rep) rsi"
    and s: "support_col rep = rows (index rep) (Smooth_Support closes rsi lookback smoothLength)"
    and r: "resistance_col rep = rows (index rep) (Smooth_Resistance closes rsi lookback smoothLength)"
    and buy: "buy_col rep = Buy_Signal (close_col rep) (support_col rep) (rsi_col rep)"
    and sell: "sell_col rep = Sell_Signal (close_col rep) (resistance_col rep) (rsi_col rep)"
    by (rule pipeline_InrD)
  let ?i = "index rep ! k" and ?i' = "index rep ! (k - 1)"
  have k': "k - 1 < length (index rep)" using assms(3) by arith
  have sorted: "sorted_wrt (<) (index rep)"
    unfolding idx by (rule valid_index_sorted)
  have less: "?i' < ?i"
    using sorted_wrt_nth_less [OF sorted _ assms(3), of "k - 1"] assms(2) by simp
  have gap: "\<forall>j. ?i' < j \<and> j < ?i \<longrightarrow> j \<notin> set (index rep)"
    using sorted_gap [OF sorted assms(2,3)] by blast
  have mem: "?i \<in> set (valid_index closes rsi lookback smoothLength)"
    "?i' \<in> set (valid_index closes rsi lookback smoothLength)"
    using assms(3) k' unfolding idx [symmetric] by simp_all
  note cells = valid_cells [OF rsi mem(1)] and cells' = valid_cells [OF rsi mem(2)]
  obtain s1 r1 v1 where at: "Smooth_Support closes rsi lookback smoothLength ! ?i = Fin s1"
    "Smooth_Resistance closes rsi lookback smoothLength ! ?i = Fin r1" "rsi ! ?i = Fin v1"
    using cells(2,3,5) by blast
  obtain s0 r0 v0 where at': "Smooth_Support closes rsi lookback smoothLength ! ?i' = Fin s0"
    "Smooth_Resistance closes rsi lookback smoothLength ! ?i' = Fin r0" "rsi ! ?i' = Fin v0"
    using cells'(2,3,5) by blast
  have len: "length (support_col rep) = length (close_col rep)"
    "length (resistance_col rep) = length (close_col rep)"
    "length (rsi_col rep) = length (close_col rep)"
    "length (close_col rep) = length (index rep)"
    by (simp_all add: c v s r)
  have kc: "k < length (close_col rep)" using assms(3) len by simp
  have vals: "close_col rep ! k = Fin (closes ! ?i)" "close_col rep ! (k - 1) = Fin (closes ! ?i')"
    "support_col rep ! k = Fin s1" "support_col rep ! (k - 1) = Fin s0"
    "resistance_col rep ! k = Fin r1" "resistance_col rep ! (k - 1) = Fin r0"
    "rsi_col rep ! k = Fin v1" "rsi_col rep ! (k - 1) = Fin v0"
    using assms(3) k' cells(1) cells'(1) at at'
    by (simp_all add: c v s r rows_nth)
  have b: "buy_col rep ! k \<longleftrightarrow> closes ! ?i > s1 \<and> closes ! ?i' \<le> s0 \<and> v1 > v0"
    unfolding buy Buy_Signal_nth [OF len(1,3) kc]
    using assms(2) kc len by (auto simp add: shift1_nth vals fgt_def simp del: One_nat_def)
  have e: "sell_col rep ! k \<longleftrightarrow> closes ! ?i < r1 \<and> closes ! ?i' \<ge> r0 \<and> v1 < v0"
    unfolding sell Sell_Signal_nth [OF len(2,3) kc]
    using assms(2) kc len by (auto simp add: shift1_nth vals fge_def simp del: One_nat_def)
  show ?thesis
    using rsi idx c v s r less gap vals b e by blast
qed

theorem signal_rule_witness:
  "pipeline [5, 4, 3, 2, 1, 3, 1, 4, 2, 6] 2 5 1 =
     Inr \<lparr>index = [4, 5, 6, 7, 8, 9],
          close_col = [Fin 1, Fin 3, Fin 1, Fin 4, Fin 2, Fin 6],
          rsi_col = [Fin 0, Fin (200 / 3), Fin 50, Fin 60, Fin 60, Fin (200 / 3)],
          support_col = [Fin (- 3), Fin 0, Fin 1, Fin (2 / 5), Fin (2 / 5), Fin (- (2 / 3))],
          resistance_col = [Fin 9, Fin 5, Fin 3, Fin (23 / 5), Fin (23 / 5), Fin (23 / 3)],
          midline_col = [Fin 3, Fin (5 / 2), Fin 2, Fin (5 / 2), Fin (5 / 2), Fin (7 / 2)],
          buy_col = [False, False, False, True, False, False],
          sell_col = [False, False, False, False, False, False],
          latest_action = WAIT\<rparr> \<and>
   (0::nat) < 3 \<and> (3::nat) < length [4, 5, 6, 7, 8, 9 :: nat] \<and>
   ([False, False, False, True, False, False] ! 3 \<longleftrightarrow>
      (4::real) > 2 / 5 \<and> (1::real) \<le> 1 \<and> (60::real) > 50) \<and>
   ([False, False, False, False, False, False] ! 3 \<longleftrightarrow>
      (4::real) < 23 / 5 \<and> (1::real) \<ge> 3 \<and> (60::real) < 50)"
proof -
  let ?rep = "\<lparr>index = [4, 5, 6, 7, 8, 9],
          close_col = [Fin 1, Fin 3, Fin 1, Fin 4, Fin 2, Fin 6],
          rsi_col = [Fin 0, Fin (200 / 3), Fin 50, Fin 60, Fin 60, Fin (200 / 3)],
          support_col = [Fin (- 3), Fin 0, Fin 1, Fin (2 / 5), Fin (2 / 5), Fin (- (2 / 3))],
          resistance_col = [Fin 9, Fin 5, Fin 3, Fin (23 / 5), Fin (23 / 5), Fin (23 / 3)],
          midline_col = [Fin 3, Fin (5 / 2), Fin 2, Fin (5 / 2), Fin (5 / 2), Fin (7 / 2)],
          buy_col = [False, False, False, True, False, False],
          sell_col = [False, False, False, False, False, False],
          latest_action = WAIT\<rparr>"
  have run: "pipeline [5, 4, 3, 2, 1, 3, 1, 4, 2, 6] 2 5 1 = Inr ?rep"
    by code_simp
  have k0: "(0::nat) < 3" by simp
  have k1: "(3::nat) < length (index ?rep)" by simp
  from signal_rule [OF run k0 k1]
  obtain c c' s s' r r' v v' where
    "close_col ?rep ! 3 = Fin c" "close_col ?rep ! (3 - 1) = Fin c'"
    "support_col ?rep ! 3 = Fin s" "support_col ?rep ! (3 - 1) = Fin s'"
    "resistance_col ?rep ! 3 = Fin r" "resistance_col ?rep ! (3 - 1) = Fin r'"
    "rsi_col ?rep ! 3 = Fin v" "rsi_col ?rep ! (3 - 1) = Fin v'"
    "buy_col ?rep ! 3 \<longleftrightarrow> c > s \<and> c' \<le> s' \<and> v > v'"
    "sell_col ?rep ! 3 \<longleftrightarrow> c < r \<and> c' \<ge> r' \<and> v < v'"
    by blast
  then have "([False, False, False, True, False, False] ! 3 \<longleftrightarrow>
      (4::real) > 2 / 5 \<and> (1::real) \<le> 1 \<and> (60::real) > 50) \<and>
   ([False, False, False, False, False, False] ! 3 \<longleftrightarrow>
      (4::real) < 23 / 5 \<and> (1::real) \<ge> 3 \<and> (60::real) < 50)"
    by (simp add: numeral_3_eq_3)
  with run k0 show ?thesis by simp
qed

section \<open>Failures of the pipeline\<close>








end
